theory Spec2Isabelle
  imports Complex_Main "HOL-Library.Product_Lexorder"
begin

section \<open>The inflation impact simulator: data model\<close>

text \<open>
  The program (\<^verbatim>\<open>inflation_app.py\<close>) is one script over a data frame \<^verbatim>\<open>df\<close> with the
  columns \<^verbatim>\<open>Date\<close> and \<^verbatim>\<open>CPI\<close>. A row of the frame is an observation, the frame is the list
  of its rows in positional order (what \<^verbatim>\<open>iloc\<close> sees).

  Numbers: the CPI values and the amounts are floats in the program. A finite float is
  the real number it stands for, \<open>Num r\<close>; the floats \<^verbatim>\<open>inf\<close>, \<^verbatim>\<open>-inf\<close> and \<^verbatim>\<open>nan\<close> are the one
  value \<open>NonFinite\<close>. The formulas of the script are given twice: with exact
  arithmetic (the value the formula denotes), and as the doubles compute them, every
  operation rounded to the nearest double (section on arithmetic in doubles).

  Dates: a timestamp of the \<^verbatim>\<open>Date\<close> column is the triple (year, month, day), ordered
  lexicographically.
\<close>

type_synonym date = "int \<times> nat \<times> nat"

definition year :: "date \<Rightarrow> int" where
  "year d = fst d"

record observation =
  Date :: date
  CPI :: real

text \<open>
  The exceptions a run of the script can end with. \<open>IndexError\<close>: \<^verbatim>\<open>iloc\<close> out of
  bounds. \<open>ValueError\<close>: \<^verbatim>\<open>list.index\<close> of a value that is not in the list.
  \<open>StreamlitAPIException\<close>: a select box whose default position is not a position of
  its options. \<open>NameError\<close>: a read of a name that was never bound. The script
  declares no exception of its own and raises none itself.
\<close>

datatype error = IndexError | ValueError | StreamlitAPIException | NameError

datatype np_float = Num real | NonFinite

text \<open>
  Division and multiplication in exact arithmetic. The operands are numpy scalars,
  so a division by zero gives \<^verbatim>\<open>inf\<close>, \<^verbatim>\<open>-inf\<close> or \<^verbatim>\<open>nan\<close> with a warning and raises
  nothing.
\<close>

definition np_div :: "real \<Rightarrow> real \<Rightarrow> np_float" where
  "np_div x y = (if y = 0 then NonFinite else Num (x / y))"

fun np_times :: "np_float \<Rightarrow> real \<Rightarrow> np_float" where
  "np_times (Num v) k = Num (v * k)"
| "np_times NonFinite k = NonFinite"

text \<open>
  Positional access \<^verbatim>\<open>s.iloc[i]\<close>: a negative position counts from the end, a position
  outside the series raises IndexError.
\<close>

fun iloc :: "'a list \<Rightarrow> int \<Rightarrow> error + 'a" where
  "iloc xs i =
     (if 0 \<le> i \<and> i < int (length xs) then Inr (xs ! nat i)
      else if i < 0 \<and> - int (length xs) \<le> i then Inr (xs ! nat (int (length xs) + i))
      else Inl IndexError)"

text \<open>
  \<^verbatim>\<open>df.sort_values("Date", inplace=True)\<close>. Rows with equal dates may come out in any
  order in pandas; the theorems below only use that the dates are ascending.
\<close>

definition sort_values :: "observation list \<Rightarrow> observation list" where
  "sort_values df = sort_key Date df"

section \<open>The headline rate (lines 50 to 60)\<close>

text \<open>\<^verbatim>\<open>latest_cpi = df["CPI"].iloc[-1]\<close>\<close>

definition latest_cpi :: "observation list \<Rightarrow> error + real" where
  "latest_cpi df = iloc (map CPI df) (- 1)"

text \<open>\<^verbatim>\<open>df["Date"].max()\<close>: the greatest date, \<^verbatim>\<open>NaT\<close> (here \<open>None\<close>) for an empty column.\<close>

fun date_max :: "observation list \<Rightarrow> date option" where
  "date_max [] = None"
| "date_max (x # xs) = Some (fold max (map Date xs) (Date x))"

definition is_leap :: "int \<Rightarrow> bool" where
  "is_leap y = ((y mod 4 = 0 \<and> y mod 100 \<noteq> 0) \<or> y mod 400 = 0)"

definition days_in_month :: "int \<Rightarrow> nat \<Rightarrow> nat" where
  "days_in_month y m =
     (if m = 2 then (if is_leap y then 29 else 28)
      else if m = 4 \<or> m = 6 \<or> m = 9 \<or> m = 11 then 30 else 31)"

text \<open>
  \<^verbatim>\<open>t - pd.DateOffset(years=n)\<close>: the same month and day \<open>n\<close> years earlier, the day
  cut down to the length of the month (29 February becomes 28 February).
\<close>

definition minus_years :: "date \<Rightarrow> int \<Rightarrow> date" where
  "minus_years d n =
     (case d of (y, m, dd) \<Rightarrow> (y - n, m, min dd (days_in_month (y - n) m)))"

definition ten_years_ago :: "observation list \<Rightarrow> date option" where
  "ten_years_ago df = map_option (\<lambda>d. minus_years d 10) (date_max df)"

text \<open>
  \<^verbatim>\<open>closest_past = df[df["Date"] <= target]["CPI"]\<close>; a comparison with \<^verbatim>\<open>NaT\<close> is false
  for every row.
\<close>

definition closest_past :: "observation list \<Rightarrow> date option \<Rightarrow> real list" where
  "closest_past df target =
     (case target of
        None \<Rightarrow> []
      | Some t \<Rightarrow> map CPI (filter (\<lambda>ob. Date ob \<le> t) df))"

text \<open>
  Lines 54 to 57 for any target date:
  \<^verbatim>\<open>if not closest_past.empty: past_cpi = closest_past.iloc[-1]
else: past_cpi = df["CPI"].iloc[0]\<close>
\<close>

definition past_cpi_at :: "observation list \<Rightarrow> date option \<Rightarrow> error + real" where
  "past_cpi_at df target =
     (if closest_past df target \<noteq> [] then iloc (closest_past df target) (- 1)
      else iloc (map CPI df) 0)"

definition past_cpi :: "observation list \<Rightarrow> error + real" where
  "past_cpi df = past_cpi_at df (ten_years_ago df)"

text \<open>\<^verbatim>\<open>((latest_cpi - past_cpi) / past_cpi) * 100\<close>\<close>

definition percent_change :: "real \<Rightarrow> real \<Rightarrow> np_float" where
  "percent_change value_new value_old = np_times (np_div (value_new - value_old) value_old) 100"

definition cpi_change :: "observation list \<Rightarrow> error + np_float" where
  "cpi_change df =
     (case latest_cpi df of
        Inl e \<Rightarrow> Inl e
      | Inr l \<Rightarrow>
          (case past_cpi df of
             Inl e \<Rightarrow> Inl e
           | Inr p \<Rightarrow> Inr (percent_change l p)))"

section \<open>The comparison year (lines 77 to 86)\<close>

text \<open>
  \<^verbatim>\<open>years = df["Date"].dt.year.unique().tolist(); years.sort(reverse=True)\<close>:
  the distinct years, descending.
\<close>

definition years :: "observation list \<Rightarrow> int list" where
  "years df = rev (sort (remdups (map (\<lambda>ob. year (Date ob)) df)))"

text \<open>The options of the select box, \<^verbatim>\<open>years[1:]\<close>.\<close>

definition year_options :: "observation list \<Rightarrow> int list" where
  "year_options df = drop 1 (years df)"

text \<open>\<^verbatim>\<open>xs.index(v)\<close>: the first position of \<open>v\<close>, ValueError when it is not there.\<close>

fun list_index :: "'a list \<Rightarrow> 'a \<Rightarrow> error + nat" where
  "list_index [] v = Inl ValueError"
| "list_index (x # xs) v =
     (if x = v then Inr 0
      else (case list_index xs v of Inl e \<Rightarrow> Inl e | Inr i \<Rightarrow> Inr (Suc i)))"

text \<open>
  The default position handed to the select box,
  \<^verbatim>\<open>years.index(datetime.now().year - 10)\<close>; \<open>now_year\<close> is the current year.
\<close>

definition default_index :: "observation list \<Rightarrow> int \<Rightarrow> error + nat" where
  "default_index df now_year = list_index (years df) (now_year - 10)"

text \<open>
  \<^verbatim>\<open>st.selectbox(label, options, index=i)\<close>. Without options the box returns \<^verbatim>\<open>None\<close>.
  With options, a default position that is not one of theirs raises
  StreamlitAPIException; otherwise the box returns the option at the position the
  user picked (\<open>pick\<close>), and the option at the default position as long as the user
  has picked none (\<open>pick = None\<close>; a pick outside the options cannot come from the
  page and counts as none).
\<close>

definition selectbox :: "int list \<Rightarrow> nat \<Rightarrow> nat option \<Rightarrow> error + int option" where
  "selectbox opts i pick =
     (if opts = [] then Inr None
      else if \<not> i < length opts then Inl StreamlitAPIException
      else (case pick of
              None \<Rightarrow> Inr (Some (opts ! i))
            | Some k \<Rightarrow> Inr (Some (opts ! (if k < length opts then k else i)))))"

text \<open>\<^verbatim>\<open>Series.mean()\<close> of a series; the script takes it of a non-empty one only.\<close>

definition mean :: "real list \<Rightarrow> real" where
  "mean xs = sum_list xs / real (length xs)"

text \<open>
  \<^verbatim>\<open>if comparison_year in df["Date"].dt.year.values:
    past_cpi_year = df[df["Date"].dt.year == comparison_year]["CPI"].mean()
else:
    st.error("Selected comparison year is not available in the dataset.")\<close>
  The result is the binding of \<^verbatim>\<open>past_cpi_year\<close> after these lines: \<open>Some\<close> of the mean,
  or \<open>None\<close> when the else branch ran and the name stays unbound. The else branch
  raises and returns nothing; its message is an element of the page (see \<open>app\<close>).
  \<open>comparison_year\<close> is what the select box returned, \<^verbatim>\<open>None\<close> included, which is in no
  column of years.
\<close>

definition past_cpi_year :: "observation list \<Rightarrow> int option \<Rightarrow> real option" where
  "past_cpi_year df comparison_year =
     (case comparison_year of
        None \<Rightarrow> None
      | Some y \<Rightarrow>
          if y \<in> set (map (\<lambda>ob. year (Date ob)) df)
          then Some (mean (map CPI (filter (\<lambda>ob. year (Date ob) = y) df)))
          else None)"

section \<open>The prediction (lines 120 to 163)\<close>

text \<open>
  \<^verbatim>\<open>category_inputs\<close> is a dictionary from the label of a category to the amount
  entered, here the list of its items in insertion order.
  \<^verbatim>\<open>total_today = sum(category_inputs.values())\<close>
\<close>

definition total_today :: "(string \<times> real) list \<Rightarrow> real" where
  "total_today category_inputs = sum_list (map snd category_inputs)"

text \<open>
  \<^verbatim>\<open>total_past = (total_today * past_cpi_year) / latest_cpi\<close>, and the two formulas after
  it, in exact arithmetic: the number the formula denotes. What the doubles compute
  is \<open>total_past_f64\<close>, \<open>old_value_f64\<close> and \<open>past_values_f64\<close> below.
\<close>

definition total_past :: "real \<Rightarrow> real \<Rightarrow> real \<Rightarrow> np_float" where
  "total_past today past_year latest = np_div (today * past_year) latest"


text \<open>
  \<^verbatim>\<open>past_values = [amount * past_cpi_year / latest_cpi
               for amount in category_inputs.values()]\<close>
\<close>

definition past_values :: "(string \<times> real) list \<Rightarrow> real \<Rightarrow> real \<Rightarrow> np_float list" where
  "past_values category_inputs past_year latest =
     map (\<lambda>amount. np_div (amount * past_year) latest) (map snd category_inputs)"

section \<open>Arithmetic in doubles\<close>

text \<open>
  The numbers of the script are IEEE 754 doubles. A finite double is a multiple of a
  power of two with a significand below \<open>2 ^ 53\<close>, the power being at least \<open>- 1074\<close>. An
  arithmetic operation gives the exact result rounded to the nearest double, a tie
  going to the double with the even significand; a rounded result of magnitude
  \<open>2 ^ 1024\<close> or more is \<^verbatim>\<open>inf\<close>. The arguments of the functions below stand for doubles.

  \<open>round_even\<close> rounds a real to the nearest integer, a tie to the even one.
  \<open>f64_ulp_exp x\<close> is the exponent of the spacing of the doubles around \<open>x\<close>.
\<close>

definition round_even :: "real \<Rightarrow> int" where
  "round_even x =
     (if x - of_int \<lfloor>x\<rfloor> < 1 / 2 then \<lfloor>x\<rfloor>
      else if 1 / 2 < x - of_int \<lfloor>x\<rfloor> then \<lfloor>x\<rfloor> + 1
      else if even \<lfloor>x\<rfloor> then \<lfloor>x\<rfloor> else \<lfloor>x\<rfloor> + 1)"

definition f64_ulp_exp :: "real \<Rightarrow> int" where
  "f64_ulp_exp x = max (\<lfloor>log 2 \<bar>x\<bar>\<rfloor> - 52) (- 1074)"

definition f64_round :: "real \<Rightarrow> np_float" where
  "f64_round x =
     (if x = 0 then Num 0
      else if 2 powi 1024 \<le> \<bar>real_of_int (round_even (x / 2 powi f64_ulp_exp x)) * 2 powi f64_ulp_exp x\<bar>
      then NonFinite
      else Num (real_of_int (round_even (x / 2 powi f64_ulp_exp x)) * 2 powi f64_ulp_exp x))"

text \<open>The product and the quotient of two doubles, as \<^verbatim>\<open>*\<close> and \<^verbatim>\<open>/\<close> compute them.\<close>

definition f64_mul :: "real \<Rightarrow> real \<Rightarrow> np_float" where
  "f64_mul x y = f64_round (x * y)"

definition f64_div :: "real \<Rightarrow> real \<Rightarrow> np_float" where
  "f64_div x y = (if y = 0 then NonFinite else f64_round (x / y))"

text \<open>The quotient of a float that may be non-finite already: it stays non-finite.\<close>

fun f64_then_div :: "np_float \<Rightarrow> real \<Rightarrow> np_float" where
  "f64_then_div (Num m) y = f64_div m y"
| "f64_then_div NonFinite y = NonFinite"



text \<open>
  Lines 123, 147 and 152 in doubles: the product is rounded, then the quotient.
\<close>

definition total_past_f64 :: "real \<Rightarrow> real \<Rightarrow> real \<Rightarrow> np_float" where
  "total_past_f64 today past_year latest = f64_then_div (f64_mul today past_year) latest"

definition old_value_f64 :: "real \<Rightarrow> real \<Rightarrow> real \<Rightarrow> np_float" where
  "old_value_f64 amount past_year latest = f64_then_div (f64_mul amount past_year) latest"


section \<open>The script as a whole\<close>

text \<open>
  What a run puts on the page, in the order of the calls: the sidebar (lines 17 to
  43), the welcome text (46 to 49), the metric with the headline rate (60), the select
  box of the comparison year with its options and default position (80), the message
  of line 86, the result of line 125, the breakdown by category (146 to 148) and the
  recommendations that close the page (166 to 173). Headings, the inputs of the
  amounts and the two charts are not recorded.
\<close>

datatype element =
    Sidebar
  | Welcome
  | Metric np_float
  | YearSelect "int list" nat
  | YearNotAvailable
  | PastValue np_float
  | Breakdown "np_float list"
  | Recommendations

text \<open>
  One run of the script over the frame \<open>df\<close> as loaded and sorted: \<open>now_year\<close> is the
  current year, \<open>pick\<close> the user's pick in the select box, \<open>category_inputs\<close> the amounts
  entered, \<open>button\<close> whether the button is pressed. The result is what the run has
  shown, and the exception that ended it if one did.
\<close>

definition app ::
  "observation list \<Rightarrow> int \<Rightarrow> nat option \<Rightarrow> (string \<times> real) list \<Rightarrow> bool
     \<Rightarrow> element list \<times> error option" where
  "app df now_year pick category_inputs button =
     (case latest_cpi df of
        Inl e \<Rightarrow> ([Sidebar, Welcome], Some e)
      | Inr latest \<Rightarrow>
     (case past_cpi df of
        Inl e \<Rightarrow> ([Sidebar, Welcome], Some e)
      | Inr past \<Rightarrow>
     (let shown = [Sidebar, Welcome, Metric (percent_change latest past)] in
      case default_index df now_year of
        Inl e \<Rightarrow> (shown, Some e)
      | Inr i \<Rightarrow>
     (case selectbox (year_options df) i pick of
        Inl e \<Rightarrow> (shown, Some e)
      | Inr comparison_year \<Rightarrow>
     (case past_cpi_year df comparison_year of
        None \<Rightarrow>
          if button
          then (shown @ [YearSelect (year_options df) i, YearNotAvailable], Some NameError)
          else (shown @ [YearSelect (year_options df) i, YearNotAvailable, Recommendations],
                None)
      | Some past_year \<Rightarrow>
          if button
          then (shown @ [YearSelect (year_options df) i,
                  PastValue (total_past (total_today category_inputs) past_year latest),
                  Breakdown (past_values category_inputs past_year latest),
                  Recommendations], None)
          else (shown @ [YearSelect (year_options df) i, Recommendations], None))))))"

section \<open>Auxiliary facts\<close>

lemma iloc_last: "iloc xs (- 1) = (if xs = [] then Inl IndexError else Inr (last xs))"
proof (cases xs rule: rev_cases)
  case Nil
  then show ?thesis by simp
next
  case (snoc ys y)
  then show ?thesis by (simp add: nth_append)
qed

lemma iloc_first: "iloc xs 0 = (if xs = [] then Inl IndexError else Inr (hd xs))"
  by (cases xs) simp_all


lemma sorted_le_last: "sorted xs \<Longrightarrow> x \<in> set xs \<Longrightarrow> x \<le> last (xs::'a::linorder list)"
  by (induction xs) auto


lemma sorted_sort_values: "sorted (map Date (sort_values df))"
  by (simp add: sort_values_def)

lemma iloc_error: "iloc xs i = Inl e \<Longrightarrow> e = IndexError"
  by (simp split: if_splits)

lemma list_index_error: "list_index xs v = Inl e \<Longrightarrow> e = ValueError"
  by (induction xs arbitrary: e) (auto split: if_splits sum.splits)

lemma latest_cpi_error: "latest_cpi df = Inl e \<Longrightarrow> e = IndexError"
  unfolding latest_cpi_def by (rule iloc_error)

lemma past_cpi_error: "past_cpi df = Inl e \<Longrightarrow> e = IndexError"
  unfolding past_cpi_def past_cpi_at_def
  by (auto split: if_splits dest: iloc_error simp del: iloc.simps)

lemma default_index_error: "default_index df n = Inl e \<Longrightarrow> e = ValueError"
  unfolding default_index_def by (rule list_index_error)

lemma latest_cpi_last: "df \<noteq> [] \<Longrightarrow> latest_cpi df = Inr (CPI (last df))"
  by (simp add: latest_cpi_def iloc_last last_map del: iloc.simps)

lemma set_years: "set (years df) = set (map (\<lambda>ob. year (Date ob)) df)"
  by (simp add: years_def)

lemma years_descending: "sorted_wrt (\<lambda>a b. b < a) (years df)"
proof -
  have "sorted_wrt (<) (sort (remdups (map (\<lambda>ob. year (Date ob)) df)))"
    by (simp add: strict_sorted_iff)
  then show ?thesis by (simp add: years_def sorted_wrt_rev)
qed

lemma years_head:
  assumes "df \<noteq> []"
  shows "years df = Max (set (map (\<lambda>ob. year (Date ob)) df)) # year_options df"
proof -
  from assms have "set (years df) \<noteq> {}" by (simp add: set_years)
  then obtain m rest where split: "years df = m # rest" by (cases "years df") auto
  with years_descending [of df] have "\<forall>b\<in>set rest. b < m" by simp
  then have "\<forall>b\<in>set (years df). b \<le> m" using split by auto
  then have "Max (set (years df)) = m" using split by (intro Max_eqI) auto
  then have "Max (set (map (\<lambda>ob. year (Date ob)) df)) = m" by (simp only: set_years)
  then show ?thesis using split by (simp add: year_options_def)
qed

lemma set_year_options:
  assumes "df \<noteq> []"
  shows "set (year_options df)
    = set (map (\<lambda>ob. year (Date ob)) df) - {Max (set (map (\<lambda>ob. year (Date ob)) df))}"
proof -
  let ?m = "Max (set (map (\<lambda>ob. year (Date ob)) df))"
  have split: "years df = ?m # year_options df" using assms by (rule years_head)
  have "sorted_wrt (\<lambda>a b. b < a) (?m # year_options df)"
    using years_descending [of df] split by simp
  then have below: "\<forall>b\<in>set (year_options df). b < ?m" by simp
  have "set (map (\<lambda>ob. year (Date ob)) df) = insert ?m (set (year_options df))"
    using split set_years [of df] by simp
  with below show ?thesis by auto
qed

lemma year_options_subset: "set (year_options df) \<subseteq> set (map (\<lambda>ob. year (Date ob)) df)"
proof
  fix y assume "y \<in> set (year_options df)"
  then have "y \<in> set (years df)" unfolding year_options_def by (rule in_set_dropD)
  then show "y \<in> set (map (\<lambda>ob. year (Date ob)) df)" by (simp only: set_years)
qed

lemma year_options_nonempty:
  assumes "a \<in> set df" "b \<in> set df" "year (Date a) \<noteq> year (Date b)"
  shows "year_options df \<noteq> []"
proof
  assume emp: "year_options df = []"
  from assms(1) have ne: "df \<noteq> []" by auto
  let ?m = "Max (set (map (\<lambda>ob. year (Date ob)) df))"
  have "set (map (\<lambda>ob. year (Date ob)) df) - {?m} = {}"
    using set_year_options [OF ne] emp by simp
  then have "year (Date a) = ?m" "year (Date b) = ?m" using assms(1,2) by auto
  with assms(3) show False by simp
qed

lemma year_options_single:
  assumes "df \<noteq> []" "\<forall>a\<in>set df. \<forall>b\<in>set df. year (Date a) = year (Date b)"
  shows "year_options df = []"
proof -
  let ?ys = "set (map (\<lambda>ob. year (Date ob)) df)"
  have "Max ?ys \<in> ?ys" using assms(1) by (intro Max_in) auto
  then obtain a where a: "a \<in> set df" "Max ?ys = year (Date a)" by auto
  have "y = Max ?ys" if "y \<in> ?ys" for y
  proof -
    from that obtain b where "b \<in> set df" "y = year (Date b)" by auto
    with assms(2) a show ?thesis by metis
  qed
  then have "?ys - {Max ?ys} = {}" by blast
  then have "set (year_options df) = {}" using set_year_options [OF assms(1)] by simp
  then show ?thesis by simp
qed

lemma selectbox_Some:
  assumes "opts \<noteq> []" "selectbox opts i pick = Inr sel"
  shows "\<exists>y. sel = Some y \<and> y \<in> set opts"
  using assms by (auto simp: selectbox_def split: if_splits option.splits)

lemma selectbox_error: "selectbox opts i pick = Inl e \<Longrightarrow> e = StreamlitAPIException"
  by (auto simp: selectbox_def split: if_splits option.splits)

lemma past_cpi_year_Some:
  assumes "y \<in> set (map (\<lambda>ob. year (Date ob)) df)"
  shows "past_cpi_year df (Some y)
    = Some (mean (map CPI (filter (\<lambda>ob. year (Date ob) = y) df)))"
  using assms by (simp add: past_cpi_year_def)

lemma past_cpi_at_prior:
  assumes srt: "sorted (map Date df)" and ex: "\<exists>ob\<in>set df. Date ob \<le> target"
  shows "\<exists>ob\<in>set df. Date ob \<le> target
           \<and> (\<forall>ob'\<in>set df. Date ob' \<le> target \<longrightarrow> Date ob' \<le> Date ob)
           \<and> past_cpi_at df (Some target) = Inr (CPI ob)"
proof -
  let ?sel = "filter (\<lambda>ob. Date ob \<le> target) df"
  from ex have sel: "?sel \<noteq> []" by (simp add: filter_empty_conv)
  have in_sel: "last ?sel \<in> set ?sel" using sel by (rule last_in_set)
  have s: "sorted (map Date ?sel)" using srt by (rule sorted_filter)
  have grt: "Date ob' \<le> Date (last ?sel)"
    if "ob' \<in> set df" "Date ob' \<le> target" for ob'
  proof -
    have "Date ob' \<in> set (map Date ?sel)" using that by simp
    with s have "Date ob' \<le> last (map Date ?sel)" by (rule sorted_le_last)
    with sel show ?thesis by (simp add: last_map)
  qed
  have "past_cpi_at df (Some target) = Inr (CPI (last ?sel))"
    using sel
    by (simp add: past_cpi_at_def closest_past_def iloc_last last_map del: iloc.simps)
  with in_sel grt show ?thesis
    by (intro bexI[of _ "last ?sel"]) auto
qed

lemma past_cpi_at_earliest:
  assumes ne: "df \<noteq> []" and all: "\<forall>ob\<in>set df. target < Date ob"
  shows "past_cpi_at df (Some target) = Inr (CPI (hd df))"
proof -
  from all have "filter (\<lambda>ob. Date ob \<le> target) df = []"
    by (auto simp: filter_empty_conv)
  then show ?thesis
    using ne
    by (simp add: past_cpi_at_def closest_past_def iloc_first hd_map del: iloc.simps)
qed



text \<open>
  Two runs that end at the select box. On the frame with 2015 and 2024, run in 2025,
  the default position is 1, the position of 2015 among the years, while the only
  option is at position 0: the select box raises. Run in 2030, the year 2020 is not
  among the years and \<^verbatim>\<open>years.index\<close> raises.
\<close>

lemma app_ends_at_selectbox:
  "app [\<lparr>Date = (2015, 1, 1), CPI = 100\<rparr>, \<lparr>Date = (2024, 1, 1), CPI = 400\<rparr>] 2025 None
       [] False
     = ([Sidebar, Welcome, Metric (Num 300)], Some StreamlitAPIException)"
  "app [\<lparr>Date = (2015, 1, 1), CPI = 100\<rparr>, \<lparr>Date = (2024, 1, 1), CPI = 400\<rparr>] 2030 None
       [] False
     = ([Sidebar, Welcome, Metric (Num 300)], Some ValueError)"
  by (simp_all add: year_def app_def latest_cpi_def past_cpi_def past_cpi_at_def
      closest_past_def ten_years_ago_def minus_years_def days_in_month_def years_def
      default_index_def year_options_def selectbox_def percent_change_def np_div_def)

subsection \<open>Rounding to doubles\<close>

lemma round_even_error: "\<bar>of_int (round_even x) - x\<bar> \<le> 1 / 2"
  unfolding round_even_def by (auto simp: abs_if) linarith+

lemma two_powr_int: "(2::real) powr real_of_int k = 2 powi k"
  by (simp add: powr_real_of_int')

lemma two_powr_int1: "(2::real) powr (real_of_int k + 1) = 2 powi (k + 1)"
  using two_powr_int [of "k + 1"] by simp

lemma floor_log2_eq:
  assumes "2 powi k \<le> \<bar>x\<bar>" "\<bar>x\<bar> < 2 powi (k + 1)"
  shows "\<lfloor>log 2 \<bar>x\<bar>\<rfloor> = k"
proof -
  have pos: "0 < \<bar>x\<bar>" using assms(1) zero_less_power_int [of "2::real" k] by linarith
  show ?thesis
    using assms floor_log_eq_powr_iff [OF pos, of 2 k]
    by (simp add: two_powr_int two_powr_int1)
qed

lemma floor_log2_bounds:
  assumes "x \<noteq> 0"
  shows "2 powi \<lfloor>log 2 \<bar>x\<bar>\<rfloor> \<le> \<bar>x\<bar>" "\<bar>x\<bar> < 2 powi (\<lfloor>log 2 \<bar>x\<bar>\<rfloor> + 1)"
proof -
  have pos: "0 < \<bar>x\<bar>" using assms by simp
  from floor_log_eq_powr_iff [OF pos, of 2 "\<lfloor>log 2 \<bar>x\<bar>\<rfloor>"]
  show "2 powi \<lfloor>log 2 \<bar>x\<bar>\<rfloor> \<le> \<bar>x\<bar>" "\<bar>x\<bar> < 2 powi (\<lfloor>log 2 \<bar>x\<bar>\<rfloor> + 1)"
    by (simp_all add: two_powr_int two_powr_int1)
qed

lemma f64_round_normal:
  assumes lo: "2 powi (- 1022) \<le> \<bar>x\<bar>" and hi: "\<bar>x\<bar> \<le> 2 powi 1023"
  shows "\<exists>r. f64_round x = Num r \<and> \<bar>r - x\<bar> \<le> \<bar>x\<bar> / 2 ^ 53"
proof -
  have x0: "x \<noteq> 0" using lo zero_less_power_int [of "2::real" "- 1022"] by auto
  define k where "k = \<lfloor>log 2 \<bar>x\<bar>\<rfloor>"
  have kl: "2 powi k \<le> \<bar>x\<bar>" and ku: "\<bar>x\<bar> < 2 powi (k + 1)"
    using floor_log2_bounds [OF x0] by (simp_all add: k_def)
  have "- 1022 < k + 1"
  proof (rule ccontr)
    assume "\<not> - 1022 < k + 1"
    then have "k + 1 \<le> - 1022" by simp
    then have "(2::real) powi (k + 1) \<le> 2 powi (- 1022)"
      by (intro power_int_increasing) simp_all
    with lo ku show False by linarith
  qed
  then have e: "f64_ulp_exp x = k - 52"
    unfolding f64_ulp_exp_def k_def [symmetric] by simp
  define p where "p = (2::real) powi (k - 52)"
  have ppos: "0 < p" by (simp add: p_def)
  define r where "r = real_of_int (round_even (x / p)) * p"
  have "r - x = (real_of_int (round_even (x / p)) - x / p) * p"
    using ppos by (simp add: r_def left_diff_distrib)
  then have "\<bar>r - x\<bar> = \<bar>real_of_int (round_even (x / p)) - x / p\<bar> * p"
    using ppos by (simp add: abs_mult)
  also have "\<dots> \<le> 1 / 2 * p"
    using round_even_error [of "x / p"] ppos by (intro mult_right_mono) simp_all
  also have "1 / 2 * p = 2 powi k / 2 ^ 53"
    by (simp add: p_def power_int_diff)
  also have "\<dots> \<le> \<bar>x\<bar> / 2 ^ 53" using kl by (simp add: divide_right_mono)
  finally have err: "\<bar>r - x\<bar> \<le> \<bar>x\<bar> / 2 ^ 53" .
  have "\<bar>r\<bar> \<le> \<bar>x\<bar> + \<bar>x\<bar> / 2 ^ 53" using err by linarith
  also have "\<dots> \<le> 2 powi 1023 + 2 powi 1023 / 2 ^ 53"
    using hi by (intro add_mono divide_right_mono) simp_all
  also have "\<dots> < 2 powi 1024" by simp
  finally have fin: "\<not> 2 powi 1024 \<le> \<bar>r\<bar>" by simp
  have "f64_round x = Num r"
    using x0 fin by (simp add: f64_round_def e r_def p_def)
  with err show ?thesis by blast
qed

lemma round_even_of_int: "round_even (real_of_int n) = n"
  by (simp add: round_even_def)

lemma f64_round_zero: "f64_round 0 = Num 0"
  by (simp add: f64_round_def)

lemma f64_round_eval:
  assumes kl: "2 powi k \<le> \<bar>x\<bar>" and ku: "\<bar>x\<bar> < 2 powi (k + 1)"
    and lo: "- 1022 \<le> k" and hi: "k \<le> 1022"
  shows "f64_round x = Num (real_of_int (round_even (x / 2 powi (k - 52))) * 2 powi (k - 52))"
proof -
  have a: "2 powi (- 1022) \<le> \<bar>x\<bar>"
  proof -
    have "(2::real) powi (- 1022) \<le> 2 powi k" using lo by (intro power_int_increasing) simp_all
    with kl show ?thesis by linarith
  qed
  have b: "\<bar>x\<bar> \<le> 2 powi 1023"
  proof -
    have "(2::real) powi (k + 1) \<le> 2 powi 1023" using hi by (intro power_int_increasing) simp_all
    with ku show ?thesis by linarith
  qed
  have "(0::real) < 2 powi k" by simp
  with kl have "0 < \<bar>x\<bar>" by linarith
  then have x0: "x \<noteq> 0" by simp
  have e: "f64_ulp_exp x = k - 52"
    using lo by (simp add: f64_ulp_exp_def floor_log2_eq [OF kl ku])
  from f64_round_normal [OF a b] obtain r where "f64_round x = Num r" by blast
  then show ?thesis using x0 by (simp add: f64_round_def e split: if_splits)
qed


lemma conversion_rounded:
  assumes l: "0 < l"
    and m: "2 powi (- 1022) \<le> a * p" "a * p \<le> 2 powi 1023"
    and q: "2 powi (- 1021) \<le> a * p / l" "a * p / l \<le> 2 powi 1022"
  shows "\<exists>r. total_past_f64 a p l = Num r \<and> \<bar>r - a * p / l\<bar> \<le> 3 * (a * p / l) / 2 ^ 53"
proof -
  define u :: real where "u = 1 / 2 ^ 53"
  have u: "0 < u" "u \<le> 1 / 2" by (simp_all add: u_def)
  define x where "x = a * p"
  define X where "X = x / l"
  have xpos: "0 < x"
  proof -
    have "(0::real) < 2 powi (- 1022)" by simp
    with m(1) show ?thesis by (simp add: x_def)
  qed
  have Xpos: "0 < X" using xpos l by (simp add: X_def)
  from f64_round_normal [of x] m xpos obtain m1
    where m1: "f64_round x = Num m1" and e1: "\<bar>m1 - x\<bar> \<le> x * u"
    by (auto simp: x_def u_def)
  define q1 where "q1 = m1 / l"
  define E where "E = X * u"
  have Epos: "0 \<le> E" using Xpos u by (simp add: E_def)
  have "q1 - X = (m1 - x) / l" by (simp add: q1_def X_def diff_divide_distrib)
  then have "\<bar>q1 - X\<bar> = \<bar>m1 - x\<bar> / l" using l by simp
  also have "\<dots> \<le> x * u / l" using e1 l by (simp add: divide_right_mono)
  also have "\<dots> = E" by (simp add: E_def X_def)
  finally have e2: "\<bar>q1 - X\<bar> \<le> E" .
  have EX: "E \<le> X / 2"
  proof -
    have "X * u \<le> X * (1 / 2)" using u Xpos by (intro mult_left_mono) simp_all
    then show ?thesis by (simp add: E_def)
  qed
  have q1lo: "X / 2 \<le> q1" and q1hi: "q1 \<le> X + E" using e2 EX by linarith+
  have p1: "(2::real) powi (- 1021) = 2 * 2 powi (- 1022)"
    using power_int_add_1' [of "2::real" "- 1022"] by simp
  have p2: "(2::real) powi 1023 = 2 * 2 powi 1022"
    using power_int_add_1' [of "2::real" 1022] by simp
  have q1pos: "0 < q1" using q1lo Xpos by linarith
  have lo1: "2 powi (- 1022) \<le> \<bar>q1\<bar>"
  proof -
    have "2 * 2 powi (- 1022) \<le> X" using q(1) unfolding p1 X_def x_def .
    with q1lo q1pos show ?thesis by linarith
  qed
  have hi1: "\<bar>q1\<bar> \<le> 2 powi 1023"
  proof -
    have "X \<le> 2 powi 1022" using q(2) unfolding X_def x_def .
    with q1hi EX q1pos Xpos show ?thesis unfolding p2 by linarith
  qed
  from f64_round_normal [OF lo1 hi1] obtain r
    where r: "f64_round q1 = Num r" and e3: "\<bar>r - q1\<bar> \<le> \<bar>q1\<bar> * u"
    by (auto simp: u_def)
  have "\<bar>q1\<bar> * u \<le> (X + E) * u" using q1hi q1pos u by (intro mult_right_mono) simp_all
  also have "\<dots> = E + E * u" by (simp add: E_def distrib_right)
  also have "\<dots> \<le> E + E * 1" using Epos u by (intro add_left_mono mult_left_mono) simp_all
  finally have "\<bar>r - q1\<bar> \<le> 2 * E" using e3 by simp
  with e2 have "\<bar>r - X\<bar> \<le> 3 * E" by linarith
  moreover have "total_past_f64 a p l = Num r"
    using m1 r l by (simp add: total_past_f64_def f64_mul_def f64_div_def x_def q1_def)
  ultimately show ?thesis by (auto simp: E_def X_def x_def u_def)
qed

lemma f64_round_nat:
  assumes "n < 2 ^ 53"
  shows "f64_round (real n) = Num (real n)"
proof (cases "n = 0")
  case True
  then show ?thesis by (simp add: f64_round_zero)
next
  case False
  define x where "x = real n"
  have x1: "1 \<le> x" using False by (simp add: x_def)
  then have x0: "x \<noteq> 0" and xa: "\<bar>x\<bar> = x" by simp_all
  have xu: "x < 2 ^ 53"
  proof -
    have "real n < real (2 ^ 53)" using assms by (simp only: of_nat_less_iff)
    then show ?thesis by (simp add: x_def)
  qed
  define k where "k = \<lfloor>log 2 \<bar>x\<bar>\<rfloor>"
  have kl: "2 powi k \<le> \<bar>x\<bar>" and ku: "\<bar>x\<bar> < 2 powi (k + 1)"
    using floor_log2_bounds [OF x0] by (simp_all add: k_def)
  have k0: "0 \<le> k"
  proof (rule ccontr)
    assume "\<not> 0 \<le> k"
    then have "k + 1 \<le> 0" by simp
    then have "(2::real) powi (k + 1) \<le> 2 powi 0" by (intro power_int_increasing) simp_all
    with ku x1 xa show False by simp
  qed
  have k52: "k \<le> 52"
  proof (rule ccontr)
    assume "\<not> k \<le> 52"
    then have "53 \<le> k" by simp
    then have "(2::real) powi 53 \<le> 2 powi k" by (intro power_int_increasing) simp_all
    moreover have "(2::real) powi 53 = 2 ^ 53" by (simp only: power_int_numeral)
    ultimately show False using kl xu xa by linarith
  qed
  define j where "j = nat (52 - k)"
  have kj: "k - 52 = - int j" using k52 by (simp add: j_def)
  have pw: "(2::real) powi (k - 52) = inverse (2 ^ j)"
    unfolding kj by (simp add: power_int_minus)
  have "x / 2 powi (k - 52) = real_of_int (int (n * 2 ^ j))"
    unfolding pw by (simp add: x_def divide_inverse)
  then have "round_even (x / 2 powi (k - 52)) = int (n * 2 ^ j)"
    by (simp only: round_even_of_int)
  then have "real_of_int (round_even (x / 2 powi (k - 52))) * 2 powi (k - 52) = x"
    unfolding pw by (simp add: x_def)
  moreover have "f64_round x
      = Num (real_of_int (round_even (x / 2 powi (k - 52))) * 2 powi (k - 52))"
    using kl ku k0 k52 by (intro f64_round_eval) simp_all
  ultimately show ?thesis by (simp add: x_def)
qed



lemma range_mult:
  assumes "2 powi i \<le> a" "a \<le> 2 powi j" "2 powi i' \<le> b" "b \<le> 2 powi j'"
  shows "2 powi (i + i') \<le> a * (b::real)" "a * b \<le> 2 powi (j + j')"
proof -
  have pos: "(0::real) < 2 powi i" "(0::real) < 2 powi i'" by simp_all
  with assms have ab: "0 < a" "0 < b" by linarith+
  have "2 powi i * 2 powi i' \<le> a * b" using assms pos ab by (intro mult_mono) simp_all
  then show "2 powi (i + i') \<le> a * b" by (simp add: power_int_add)
  have "a * b \<le> 2 powi j * 2 powi j'" using assms ab by (intro mult_mono) simp_all
  then show "a * b \<le> 2 powi (j + j')" by (simp add: power_int_add)
qed

lemma range_div:
  assumes "2 powi i \<le> a" "a \<le> 2 powi j" "2 powi i' \<le> b" "b \<le> 2 powi j'"
  shows "2 powi (i - j') \<le> a / (b::real)" "a / b \<le> 2 powi (j - i')"
proof -
  have pos: "(0::real) < 2 powi i" "(0::real) < 2 powi i'" by simp_all
  with assms have ab: "0 < a" "0 < b" by linarith+
  have "2 powi i / 2 powi j' \<le> a / b" using assms pos ab by (intro frac_le) simp_all
  then show "2 powi (i - j') \<le> a / b" by (simp add: power_int_diff)
  have "a / b \<le> 2 powi j / 2 powi i'" using assms pos ab by (intro frac_le) simp_all
  then show "a / b \<le> 2 powi (j - i')" by (simp add: power_int_diff)
qed

lemma widen_lo:
  assumes "2 powi i \<le> a" "i' \<le> i"
  shows "2 powi i' \<le> (a::real)"
proof -
  have "(2::real) powi i' \<le> 2 powi i" using assms(2) by (intro power_int_increasing) simp_all
  with assms(1) show ?thesis by linarith
qed

lemma widen_hi:
  assumes "a \<le> 2 powi j" "j \<le> j'"
  shows "(a::real) \<le> 2 powi j'"
proof -
  have "(2::real) powi j \<le> 2 powi j'" using assms(2) by (intro power_int_increasing) simp_all
  with assms(1) show ?thesis by linarith
qed

lemma conversion_in_range:
  assumes a: "2 powi (- 300) \<le> a" "a \<le> 2 powi 400"
    and p: "2 powi (- 300) \<le> p" "p \<le> 2 powi 300"
    and l: "2 powi (- 300) \<le> l" "l \<le> 2 powi 300"
  shows "\<exists>r. total_past_f64 a p l = Num r \<and> \<bar>r - a * p / l\<bar> \<le> 3 * (a * p / l) / 2 ^ 53"
proof -
  have lpos: "0 < l"
  proof -
    have "(0::real) < 2 powi (- 300)" by simp
    with l(1) show ?thesis by linarith
  qed
  have ap: "2 powi (- 300 + - 300) \<le> a * p" "a * p \<le> 2 powi (400 + 300)"
    using range_mult [OF a p] .
  have apl: "2 powi (- 300 + - 300 - 300) \<le> a * p / l"
      "a * p / l \<le> 2 powi (400 + 300 - - 300)"
    using range_div [OF ap l] .
  show ?thesis
  proof (rule conversion_rounded [OF lpos])
    show "2 powi (- 1022) \<le> a * p" by (rule widen_lo [OF ap(1)]) simp
    show "a * p \<le> 2 powi 1023" by (rule widen_hi [OF ap(2)]) simp
    show "2 powi (- 1021) \<le> a * p / l" by (rule widen_lo [OF apl(1)]) simp
    show "a * p / l \<le> 2 powi 1022" by (rule widen_hi [OF apl(2)]) simp
  qed
qed

lemma total_past_f64_zero: "l \<noteq> 0 \<Longrightarrow> total_past_f64 0 p l = Num 0"
  by (simp add: total_past_f64_def f64_mul_def f64_div_def f64_round_zero)



text \<open>
  Rounding at the edges: a tie goes to the even significand, below \<open>2 powi (- 1022)\<close> the
  spacing stays \<open>2 powi (- 1074)\<close>, and \<open>2 powi 1024\<close> is out of range.
\<close>

lemma f64_round_ties:
  "f64_round 9007199254740993 = Num 9007199254740992"
  "f64_round 9007199254740995 = Num 9007199254740996"
  "f64_round (- 9007199254740993) = Num (- 9007199254740992)"
  by (subst f64_round_eval [where k = 53]; simp add: round_even_def power_int_minus)+

lemma f64_ulp_exp_subnormal:
  assumes "2 powi k \<le> \<bar>x\<bar>" "\<bar>x\<bar> < 2 powi (k + 1)" "k < - 1022"
  shows "f64_ulp_exp x = - 1074"
  using assms(3) by (simp add: f64_ulp_exp_def floor_log2_eq [OF assms(1,2)])

lemma f64_round_subnormal:
  "f64_round (2 powi (- 1075)) = Num 0"
  "f64_round (3 * 2 powi (- 1075)) = Num (2 * 2 powi (- 1074))"
proof -
  have e1: "f64_ulp_exp (2 powi (- 1075)) = - 1074"
    by (rule f64_ulp_exp_subnormal [where k = "- 1075"]) simp_all
  have q1: "(2::real) powi (- 1075) / 2 powi (- 1074) = 1 / 2"
    using power_int_diff [of "2::real" "- 1075" "- 1074"] by simp
  show "f64_round (2 powi (- 1075)) = Num 0"
    by (simp only: f64_round_def e1 q1) (simp add: round_even_def)
  have h: "(2::real) powi (- 1074) = 2 * 2 powi (- 1075)"
      "(2::real) powi (- 1074 + 1) = 4 * 2 powi (- 1075)"
    using power_int_add_1' [of "2::real" "- 1075"] power_int_add_1' [of "2::real" "- 1074"]
    by simp_all
  have pos: "(0::real) < 2 powi (- 1075)" by simp
  have e2: "f64_ulp_exp (3 * 2 powi (- 1075)) = - 1074"
  proof (rule f64_ulp_exp_subnormal [where k = "- 1074"])
    show "2 powi (- 1074) \<le> \<bar>3 * (2::real) powi (- 1075)\<bar>" unfolding h using pos by simp
    show "\<bar>3 * (2::real) powi (- 1075)\<bar> < 2 powi (- 1074 + 1)" unfolding h using pos by simp
  qed simp
  have q2: "3 * (2::real) powi (- 1075) / 2 powi (- 1074) = 3 / 2"
    unfolding h(1) using pos by simp
  have r2: "round_even (3 / 2) = 2" by (simp add: round_even_def)
  have small: "\<not> 2 powi 1024 \<le> \<bar>real_of_int 2 * (2::real) powi (- 1074)\<bar>"
  proof -
    have "(2::real) powi (- 1074) \<le> 2 powi 0" by (intro power_int_increasing) simp_all
    moreover have "(2::real) powi 2 \<le> 2 powi 1024" by (intro power_int_increasing) simp_all
    ultimately show ?thesis by simp
  qed
  have x0: "3 * (2::real) powi (- 1075) \<noteq> 0" using pos by simp
  show "f64_round (3 * 2 powi (- 1075)) = Num (2 * 2 powi (- 1074))"
    unfolding f64_round_def e2 q2 r2 using small x0 by simp
qed

lemma f64_round_overflow: "f64_round (2 powi 1024) = NonFinite"
proof -
  have "\<lfloor>log 2 \<bar>(2::real) powi 1024\<bar>\<rfloor> = 1024"
    by (rule floor_log2_eq) (simp_all add: power_int_add_1')
  then have e: "f64_ulp_exp (2 powi 1024) = 972" by (simp only: f64_ulp_exp_def)
  have q: "(2::real) powi 1024 / 2 powi 972 = real_of_int (2 ^ 52)"
    using power_int_diff [of "2::real" 1024 972] by simp
  have r: "real_of_int (2 ^ 52) * (2::real) powi 972 = 2 powi 1024"
    using power_int_add [of "2::real" 52 972] by simp
  show ?thesis
    by (simp only: f64_round_def e q round_even_of_int r) simp
qed

section \<open>The value conversion\<close>



text \<open>
  Claim C8, as the doubles compute it. Converting with the same CPI \<open>c\<close> on both sides
  gives the amount back up to rounding: for \<open>c\<close> and the amount between \<open>2 powi (- 300)\<close>
  and \<open>2 powi 300\<close> the result is a double within \<open>3 / 2 ^ 53\<close> of the amount, relative
  to the amount; the amount 0 comes back as 0; and the amount comes back exactly when
  the product \<open>amount * c\<close> is a double itself.
\<close>

theorem conversion_identity_up_to_rounding:
  "2 powi (- 300) \<le> c \<Longrightarrow> c \<le> 2 powi 300 \<Longrightarrow>
   2 powi (- 300) \<le> amount \<Longrightarrow> amount \<le> 2 powi 300 \<Longrightarrow>
     (\<exists>r. total_past_f64 amount c c = Num r \<and> old_value_f64 amount c c = Num r
         \<and> \<bar>r - amount\<bar> \<le> 3 * amount / 2 ^ 53)
   \<and> total_past_f64 0 c c = Num 0
   \<and> (f64_round (amount * c) = Num (amount * c) \<longrightarrow> f64_round amount = Num amount \<longrightarrow>
        total_past_f64 amount c c = Num amount)"
proof (intro conjI impI)
  assume c: "2 powi (- 300) \<le> c" "c \<le> 2 powi 300"
    and a: "2 powi (- 300) \<le> amount" "amount \<le> 2 powi 300"
  have "(0::real) < 2 powi (- 300)" by simp
  with c(1) have c0: "c \<noteq> 0" by linarith
  have a': "amount \<le> 2 powi 400" by (rule widen_hi [OF a(2)]) simp
  from conversion_in_range [OF a(1) a' c c] obtain r
    where "total_past_f64 amount c c = Num r"
      and "\<bar>r - amount * c / c\<bar> \<le> 3 * (amount * c / c) / 2 ^ 53" by blast
  then show "\<exists>r. total_past_f64 amount c c = Num r \<and> old_value_f64 amount c c = Num r
         \<and> \<bar>r - amount\<bar> \<le> 3 * amount / 2 ^ 53"
    using c0 by (auto simp: total_past_f64_def old_value_f64_def)
  show "total_past_f64 0 c c = Num 0" using c0 by (rule total_past_f64_zero)
  {
    assume "f64_round (amount * c) = Num (amount * c)" "f64_round amount = Num amount"
    then show "total_past_f64 amount c c = Num amount"
      using c0 by (simp add: total_past_f64_def f64_mul_def f64_div_def)
  }
qed

theorem conversion_identity_up_to_rounding_witness:
  "2 powi (- 300) \<le> (400::real) \<and> (400::real) \<le> 2 powi 300
   \<and> 2 powi (- 300) \<le> (60000::real) \<and> (60000::real) \<le> 2 powi 300
   \<and> f64_round (60000 * 400) = Num (60000 * 400) \<and> f64_round 60000 = Num 60000
   \<and> total_past_f64 60000 400 400 = Num 60000
   \<and> total_past_f64 0 400 400 = Num 0"
  using conversion_identity_up_to_rounding [of 400 60000]
    f64_round_nat [of 24000000, simplified] f64_round_nat [of 60000, simplified]
  by simp

text \<open>
  Claim C8 as an exact equality does not hold of the doubles. The amount 0.1 (the
  double \<open>3602879701896397 / 2 ^ 55\<close>) converted with the CPI 3 on both sides comes back
  as 0.10000000000000002, and 60000 converted with the CPI 0.07 on both sides comes
  back as 59999.99999999999.
\<close>

theorem conversion_identity_counterexample:
  "f64_round (3602879701896397 / 2 ^ 55) = Num (3602879701896397 / 2 ^ 55)
   \<and> total_past_f64 (3602879701896397 / 2 ^ 55) 3 3 = Num (7205759403792795 / 2 ^ 56)
   \<and> total_past_f64 (3602879701896397 / 2 ^ 55) 3 3 \<noteq> Num (3602879701896397 / 2 ^ 55)
   \<and> f64_round (1261007895663739 / 2 ^ 54) = Num (1261007895663739 / 2 ^ 54)
   \<and> total_past_f64 60000 (1261007895663739 / 2 ^ 54) (1261007895663739 / 2 ^ 54)
       = Num (8246337208319999 / 2 ^ 37)
   \<and> total_past_f64 60000 (1261007895663739 / 2 ^ 54) (1261007895663739 / 2 ^ 54)
       \<noteq> Num 60000"
proof -
  have a: "f64_round (3602879701896397 / 2 ^ 55) = Num (3602879701896397 / 2 ^ 55)"
    by (subst f64_round_eval [where k = "- 4"]) (simp_all add: round_even_def power_int_minus)
  have m1: "f64_mul (3602879701896397 / 2 ^ 55) 3 = Num (1351079888211149 / 2 ^ 52)"
    unfolding f64_mul_def
    by (subst f64_round_eval [where k = "- 2"]) (simp_all add: round_even_def power_int_minus)
  have d1: "f64_div (1351079888211149 / 2 ^ 52) 3 = Num (7205759403792795 / 2 ^ 56)"
    unfolding f64_div_def
    by (subst f64_round_eval [where k = "- 4"]) (simp_all add: round_even_def power_int_minus)
  have t1: "total_past_f64 (3602879701896397 / 2 ^ 55) 3 3 = Num (7205759403792795 / 2 ^ 56)"
    by (simp only: total_past_f64_def m1 f64_then_div.simps d1)
  have c: "f64_round (1261007895663739 / 2 ^ 54) = Num (1261007895663739 / 2 ^ 54)"
    by (subst f64_round_eval [where k = "- 4"]) (simp_all add: round_even_def power_int_minus)
  have m2: "f64_mul 60000 (1261007895663739 / 2 ^ 54) = Num 4200"
    unfolding f64_mul_def
    by (subst f64_round_eval [where k = "12"]) (simp_all add: round_even_def power_int_minus)
  have d2: "f64_div 4200 (1261007895663739 / 2 ^ 54) = Num (8246337208319999 / 2 ^ 37)"
    unfolding f64_div_def
    by (subst f64_round_eval [where k = "15"]) (simp_all add: round_even_def power_int_minus)
  have t2: "total_past_f64 60000 (1261007895663739 / 2 ^ 54) (1261007895663739 / 2 ^ 54)
       = Num (8246337208319999 / 2 ^ 37)"
    by (simp only: total_past_f64_def m2 f64_then_div.simps d2)
  show ?thesis unfolding t1 t2 using a c by simp
qed







section \<open>The time series\<close>

text \<open>
  Claim C5, as the script has it. On a non-empty frame sorted ascending by date, the
  latest CPI is the CPI of the last row, and no row has a later date than that row.
  On the empty frame the lookups of the latest and of the past CPI and the headline
  rate raise pandas' IndexError, and every run of the script ends with it at line 51,
  after the sidebar and the welcome text are on the page. The years of the empty
  frame and the options of the select box are the empty list, without an error.
\<close>

theorem latest_is_max_date:
  "(df \<noteq> [] \<longrightarrow> sorted (map Date df) \<longrightarrow>
      latest_cpi df = Inr (CPI (last df)) \<and> last df \<in> set df
      \<and> (\<forall>ob\<in>set df. Date ob \<le> Date (last df)))
   \<and> latest_cpi [] = Inl IndexError \<and> past_cpi [] = Inl IndexError
   \<and> cpi_change [] = Inl IndexError
   \<and> app [] now_year pick category_inputs button = ([Sidebar, Welcome], Some IndexError)
   \<and> years [] = [] \<and> year_options [] = []"
proof -
  have b: "Date ob \<le> Date (last df)"
    if "df \<noteq> []" "sorted (map Date df)" "ob \<in> set df" for ob
  proof -
    have "Date ob \<le> last (map Date df)"
      using that by (intro sorted_le_last) auto
    then show ?thesis using that by (simp add: last_map)
  qed
  have c: "latest_cpi [] = Inl IndexError" by (simp add: latest_cpi_def)
  have d: "past_cpi [] = Inl IndexError"
    by (simp add: past_cpi_def past_cpi_at_def closest_past_def ten_years_ago_def)
  show ?thesis
    using latest_cpi_last b c d
    by (simp add: cpi_change_def app_def years_def year_options_def)
qed

theorem latest_is_max_date_witness:
  "[\<lparr>Date = (2015, 1, 1), CPI = 100\<rparr>, \<lparr>Date = (2024, 1, 1), CPI = 400\<rparr>] \<noteq> []
   \<and> sorted (map Date [\<lparr>Date = (2015, 1, 1), CPI = 100\<rparr>, \<lparr>Date = (2024, 1, 1), CPI = 400\<rparr>])
   \<and> latest_cpi [\<lparr>Date = (2015, 1, 1), CPI = 100\<rparr>, \<lparr>Date = (2024, 1, 1), CPI = 400\<rparr>]
       = Inr 400
   \<and> app [] 2025 None [] True = ([Sidebar, Welcome], Some IndexError)"
  using latest_is_max_date
    [of "[\<lparr>Date = (2015, 1, 1), CPI = 100\<rparr>, \<lparr>Date = (2024, 1, 1), CPI = 400\<rparr>]"
        2025 None "[]" True]
  by simp

text \<open>
  Claim C5 as the specification has it does not hold of the script. On the empty frame
  the query for the years answers with the empty list and the select box gets no
  options, neither fails; and the run that ends with the IndexError has already shown
  the sidebar and the welcome text, so nothing halts before the page is served.
\<close>

theorem empty_series_counterexample:
  "years [] = [] \<and> year_options [] = []
   \<and> selectbox (year_options []) 0 None = Inr None
   \<and> app [] 2026 None
        [(''Food (Bag of Rice)'', 10000), (''Transport (Fuel)'', 10000),
         (''Housing (Rent)'', 10000), (''Clothing (Casual Wear)'', 10000),
         (''Education (Tuition)'', 10000), (''Health (Drugs)'', 10000),
         (''Electronics (Phone)'', 10000)] False
       = ([Sidebar, Welcome], Some IndexError)"
  by (simp add: years_def year_options_def selectbox_def app_def latest_cpi_def)

text \<open>
  Claim C2. On a non-empty frame sorted ascending by date, the lookup of lines 53 to 57
  for a target date returns the CPI of a row whose date is the greatest one on or
  before the target, when there is such a row. When every row is later than the
  target, it returns the CPI of the first row, which is the earliest. It returns a
  value in both cases.
\<close>

theorem nearest_on_or_before:
  "df \<noteq> [] \<Longrightarrow> sorted (map Date df) \<Longrightarrow>
     ((\<exists>ob\<in>set df. Date ob \<le> target) \<longrightarrow>
        (\<exists>ob\<in>set df. Date ob \<le> target
           \<and> (\<forall>ob'\<in>set df. Date ob' \<le> target \<longrightarrow> Date ob' \<le> Date ob)
           \<and> past_cpi_at df (Some target) = Inr (CPI ob)))
   \<and> ((\<forall>ob\<in>set df. target < Date ob) \<longrightarrow>
        past_cpi_at df (Some target) = Inr (CPI (hd df))
        \<and> hd df \<in> set df \<and> (\<forall>ob\<in>set df. Date (hd df) \<le> Date ob))"
proof (intro conjI impI)
  assume ne: "df \<noteq> []" and srt: "sorted (map Date df)"
  {
    assume "\<exists>ob\<in>set df. Date ob \<le> target"
    with srt
    show "\<exists>ob\<in>set df. Date ob \<le> target
           \<and> (\<forall>ob'\<in>set df. Date ob' \<le> target \<longrightarrow> Date ob' \<le> Date ob)
           \<and> past_cpi_at df (Some target) = Inr (CPI ob)"
      by (rule past_cpi_at_prior)
  }
  {
    assume all: "\<forall>ob\<in>set df. target < Date ob"
    with ne show "past_cpi_at df (Some target) = Inr (CPI (hd df))"
      by (rule past_cpi_at_earliest)
    show "hd df \<in> set df" using ne by simp
    show "\<forall>ob\<in>set df. Date (hd df) \<le> Date ob"
      using ne srt by (cases df) auto
  }
qed

theorem nearest_on_or_before_witness:
  "[\<lparr>Date = (2015, 1, 1), CPI = 100\<rparr>, \<lparr>Date = (2024, 1, 1), CPI = 400\<rparr>] \<noteq> []
   \<and> sorted (map Date [\<lparr>Date = (2015, 1, 1), CPI = 100\<rparr>, \<lparr>Date = (2024, 1, 1), CPI = 400\<rparr>])
   \<and> Date \<lparr>Date = (2015, 1, 1), CPI = 100\<rparr> \<le> (2020, 6, 15)
   \<and> past_cpi_at [\<lparr>Date = (2015, 1, 1), CPI = 100\<rparr>, \<lparr>Date = (2024, 1, 1), CPI = 400\<rparr>]
       (Some (2020, 6, 15)) = Inr 100
   \<and> past_cpi_at [\<lparr>Date = (2015, 1, 1), CPI = 100\<rparr>, \<lparr>Date = (2024, 1, 1), CPI = 400\<rparr>]
       (Some (2024, 1, 1)) = Inr 400
   \<and> (2014, 1, 1) < Date \<lparr>Date = (2015, 1, 1), CPI = 100\<rparr>
   \<and> past_cpi_at [\<lparr>Date = (2015, 1, 1), CPI = 100\<rparr>, \<lparr>Date = (2024, 1, 1), CPI = 400\<rparr>]
       (Some (2014, 1, 1)) = Inr 100"
  using
    nearest_on_or_before
      [of "[\<lparr>Date = (2015, 1, 1), CPI = 100\<rparr>, \<lparr>Date = (2024, 1, 1), CPI = 400\<rparr>]"
          "(2020, 6, 15)"]
    nearest_on_or_before
      [of "[\<lparr>Date = (2015, 1, 1), CPI = 100\<rparr>, \<lparr>Date = (2024, 1, 1), CPI = 400\<rparr>]"
          "(2014, 1, 1)"]
  by (simp add: past_cpi_at_def closest_past_def)



section \<open>The comparison year\<close>




text \<open>
  Claim C6. On a non-empty frame the options of the select box are strictly descending
  (so without repetition), and they are the years of the frame without the greatest
  one: the list of years is that greatest year followed by the options.
\<close>

theorem year_options_descending_without_latest:
  "df \<noteq> [] \<Longrightarrow>
     sorted_wrt (\<lambda>a b. b < a) (year_options df)
   \<and> distinct (year_options df)
   \<and> set (year_options df)
       = set (map (\<lambda>ob. year (Date ob)) df) - {Max (set (map (\<lambda>ob. year (Date ob)) df))}
   \<and> years df = Max (set (map (\<lambda>ob. year (Date ob)) df)) # year_options df"
proof -
  assume ne: "df \<noteq> []"
  let ?m = "Max (set (map (\<lambda>ob. year (Date ob)) df))"
  have split: "years df = ?m # year_options df" using ne by (rule years_head)
  have desc: "sorted_wrt (\<lambda>a b. b < a) (?m # year_options df)"
    using years_descending [of df] split by simp
  then have below: "\<forall>b\<in>set (year_options df). b < ?m"
    and tl_desc: "sorted_wrt (\<lambda>a b. b < a) (year_options df)"
    by simp_all
  have "sorted_wrt (<) (rev (year_options df))" using tl_desc by (simp add: sorted_wrt_rev)
  then have dist: "distinct (year_options df)" by (simp add: strict_sorted_iff)
  have "set (map (\<lambda>ob. year (Date ob)) df) = insert ?m (set (year_options df))"
    using split set_years [of df] by simp
  with below have "set (year_options df) = set (map (\<lambda>ob. year (Date ob)) df) - {?m}"
    by auto
  with tl_desc dist split show ?thesis by simp
qed

theorem year_options_descending_without_latest_witness:
  "[\<lparr>Date = (2014, 1, 1), CPI = 50\<rparr>, \<lparr>Date = (2015, 1, 1), CPI = 100\<rparr>,
    \<lparr>Date = (2015, 6, 1), CPI = 120\<rparr>, \<lparr>Date = (2024, 1, 1), CPI = 400\<rparr>] \<noteq> []
   \<and> year_options [\<lparr>Date = (2014, 1, 1), CPI = 50\<rparr>, \<lparr>Date = (2015, 1, 1), CPI = 100\<rparr>,
        \<lparr>Date = (2015, 6, 1), CPI = 120\<rparr>, \<lparr>Date = (2024, 1, 1), CPI = 400\<rparr>] = [2015, 2014]
   \<and> distinct (year_options [\<lparr>Date = (2014, 1, 1), CPI = 50\<rparr>,
        \<lparr>Date = (2015, 1, 1), CPI = 100\<rparr>, \<lparr>Date = (2015, 6, 1), CPI = 120\<rparr>,
        \<lparr>Date = (2024, 1, 1), CPI = 400\<rparr>])"
  using year_options_descending_without_latest
    [of "[\<lparr>Date = (2014, 1, 1), CPI = 50\<rparr>, \<lparr>Date = (2015, 1, 1), CPI = 100\<rparr>,
          \<lparr>Date = (2015, 6, 1), CPI = 120\<rparr>, \<lparr>Date = (2024, 1, 1), CPI = 400\<rparr>]"]
  by (simp add: year_options_def years_def year_def)

text \<open>
  Claim C10, as the script has it. When the frame has rows of two different years,
  the select box has options, each option is a year of the frame, and whatever the
  box returns is one of them: the test of line 83 holds for it, the rows of that
  year are not none, the CPI for the year is their mean, and no run shows the message
  that the year is not available or ends on the unbound name. When all rows of a
  non-empty frame are of one year, the select box has no options and returns \<^verbatim>\<open>None\<close>,
  for which no CPI for the year is bound.
\<close>

theorem selected_year_is_available:
  "((\<exists>a\<in>set df. \<exists>b\<in>set df. year (Date a) \<noteq> year (Date b)) \<longrightarrow>
      year_options df \<noteq> []
    \<and> set (year_options df) \<subseteq> set (map (\<lambda>ob. year (Date ob)) df)
    \<and> (\<forall>sel. selectbox (year_options df) i pick = Inr sel \<longrightarrow>
         (\<exists>y. sel = Some y \<and> y \<in> set (year_options df)
            \<and> y \<in> set (map (\<lambda>ob. year (Date ob)) df)
            \<and> filter (\<lambda>ob. year (Date ob) = y) df \<noteq> []
            \<and> past_cpi_year df sel
                = Some (mean (map CPI (filter (\<lambda>ob. year (Date ob) = y) df)))))
    \<and> YearNotAvailable \<notin> set (fst (app df now_year pick category_inputs button))
    \<and> snd (app df now_year pick category_inputs button) \<noteq> Some NameError)
   \<and> (df \<noteq> [] \<and> (\<forall>a\<in>set df. \<forall>b\<in>set df. year (Date a) = year (Date b)) \<longrightarrow>
        year_options df = []
      \<and> selectbox (year_options df) i pick = Inr None
      \<and> past_cpi_year df None = None)"
proof (intro conjI impI allI)
  assume two: "\<exists>a\<in>set df. \<exists>b\<in>set df. year (Date a) \<noteq> year (Date b)"
  then show ne: "year_options df \<noteq> []" by (auto dest: year_options_nonempty)
  show sub: "set (year_options df) \<subseteq> set (map (\<lambda>ob. year (Date ob)) df)"
    by (rule year_options_subset)
  have sel_ok: "\<exists>y. sel = Some y \<and> y \<in> set (year_options df)
            \<and> y \<in> set (map (\<lambda>ob. year (Date ob)) df)
            \<and> filter (\<lambda>ob. year (Date ob) = y) df \<noteq> []
            \<and> past_cpi_year df sel
                = Some (mean (map CPI (filter (\<lambda>ob. year (Date ob) = y) df)))"
    if "selectbox (year_options df) j pk = Inr sel" for sel j pk
  proof -
    from selectbox_Some [OF ne that] obtain y
      where y: "sel = Some y" "y \<in> set (year_options df)" by blast
    with sub have mem: "y \<in> set (map (\<lambda>ob. year (Date ob)) df)" by blast
    then have "filter (\<lambda>ob. year (Date ob) = y) df \<noteq> []"
      by (auto simp: filter_empty_conv)
    with y mem past_cpi_year_Some [OF mem] show ?thesis by simp
  qed
  {
    fix sel assume "selectbox (year_options df) i pick = Inr sel"
    then show "\<exists>y. sel = Some y \<and> y \<in> set (year_options df)
            \<and> y \<in> set (map (\<lambda>ob. year (Date ob)) df)
            \<and> filter (\<lambda>ob. year (Date ob) = y) df \<noteq> []
            \<and> past_cpi_year df sel
                = Some (mean (map CPI (filter (\<lambda>ob. year (Date ob) = y) df)))"
      by (rule sel_ok)
  }
  have bound: "past_cpi_year df sel \<noteq> None"
    if "selectbox (year_options df) j pk = Inr sel" for sel j pk
    using sel_ok [OF that] by auto
  show "YearNotAvailable \<notin> set (fst (app df now_year pick category_inputs button))"
    by (auto simp: app_def Let_def split: sum.splits option.splits dest: bound)
  show "snd (app df now_year pick category_inputs button) \<noteq> Some NameError"
    by (auto simp: app_def Let_def split: sum.splits option.splits
        dest: bound latest_cpi_error past_cpi_error default_index_error selectbox_error)
next
  assume one: "df \<noteq> [] \<and> (\<forall>a\<in>set df. \<forall>b\<in>set df. year (Date a) = year (Date b))"
  then show emp: "year_options df = []" by (auto intro: year_options_single)
  then show "selectbox (year_options df) i pick = Inr None" by (simp add: selectbox_def)
  show "past_cpi_year df None = None" by (simp add: past_cpi_year_def)
qed

theorem selected_year_is_available_witness:
  "year (Date \<lparr>Date = (2014, 1, 1), CPI = 50\<rparr>) \<noteq> year (Date \<lparr>Date = (2015, 1, 1), CPI = 100\<rparr>)
   \<and> year_options [\<lparr>Date = (2014, 1, 1), CPI = 50\<rparr>, \<lparr>Date = (2015, 1, 1), CPI = 100\<rparr>,
        \<lparr>Date = (2024, 1, 1), CPI = 400\<rparr>] = [2015, 2014]
   \<and> selectbox (year_options [\<lparr>Date = (2014, 1, 1), CPI = 50\<rparr>,
        \<lparr>Date = (2015, 1, 1), CPI = 100\<rparr>, \<lparr>Date = (2024, 1, 1), CPI = 400\<rparr>]) 1 (Some 0)
       = Inr (Some 2015)
   \<and> past_cpi_year [\<lparr>Date = (2014, 1, 1), CPI = 50\<rparr>, \<lparr>Date = (2015, 1, 1), CPI = 100\<rparr>,
        \<lparr>Date = (2024, 1, 1), CPI = 400\<rparr>] (Some 2015) = Some 100
   \<and> [\<lparr>Date = (2016, 1, 1), CPI = 100\<rparr>, \<lparr>Date = (2016, 7, 1), CPI = 120\<rparr>] \<noteq> []
   \<and> year_options [\<lparr>Date = (2016, 1, 1), CPI = 100\<rparr>, \<lparr>Date = (2016, 7, 1), CPI = 120\<rparr>] = []"
  using
    selected_year_is_available
      [of "[\<lparr>Date = (2014, 1, 1), CPI = 50\<rparr>, \<lparr>Date = (2015, 1, 1), CPI = 100\<rparr>,
            \<lparr>Date = (2024, 1, 1), CPI = 400\<rparr>]" 1 "Some 0" 2025 "[]" False]
    selected_year_is_available
      [of "[\<lparr>Date = (2016, 1, 1), CPI = 100\<rparr>, \<lparr>Date = (2016, 7, 1), CPI = 120\<rparr>]"
          0 None 2026 "[]" False]
  by (simp add: year_options_def years_def year_def selectbox_def past_cpi_year_def mean_def)

text \<open>
  Claim C10 as stated does not hold of every non-empty frame. With all rows of 2016
  and a run in 2026, the default position is found, the select box has no options and
  returns \<^verbatim>\<open>None\<close>, the test of line 83 is false and the message is shown.
\<close>

theorem single_year_counterexample:
  "[\<lparr>Date = (2016, 1, 1), CPI = 100\<rparr>, \<lparr>Date = (2016, 7, 1), CPI = 120\<rparr>] \<noteq> []
   \<and> year_options [\<lparr>Date = (2016, 1, 1), CPI = 100\<rparr>, \<lparr>Date = (2016, 7, 1), CPI = 120\<rparr>] = []
   \<and> app [\<lparr>Date = (2016, 1, 1), CPI = 100\<rparr>, \<lparr>Date = (2016, 7, 1), CPI = 120\<rparr>] 2026 None
        [(''Food (Bag of Rice)'', 10000), (''Transport (Fuel)'', 10000),
         (''Housing (Rent)'', 10000), (''Clothing (Casual Wear)'', 10000),
         (''Education (Tuition)'', 10000), (''Health (Drugs)'', 10000),
         (''Electronics (Phone)'', 10000)] False
       = ([Sidebar, Welcome, Metric (Num 20), YearSelect [] 0, YearNotAvailable,
           Recommendations], None)"
  by (simp add: year_def app_def latest_cpi_def past_cpi_def past_cpi_at_def closest_past_def
      ten_years_ago_def minus_years_def days_in_month_def years_def default_index_def
      year_options_def selectbox_def past_cpi_year_def percent_change_def np_div_def)

end
